theory Spec2Isabelle
  imports Complex_Main "HOL-Library.Word"
begin

section \<open>Data model (types/index.ts)\<close>

text \<open>
  JavaScript numbers are modelled as real numbers: every statement below is about the
  arithmetic the code writes down, not about IEEE rounding. Identifiers are strings.
  The field \<open>id\<close> of a clip, a source and a region is written \<open>clip_id\<close>,
  \<open>source_id\<close> and \<open>region_id\<close>, since \<open>id\<close> is the identity function of HOL.
  Of a \<open>VideoSource\<close> only the probed metadata is kept; the file handle, the object URL
  and the file name are browser objects that none of the functions below reads.
  The optional pixel dimensions are \<open>nat option\<close> (the browser reports unsigned
  integers).
\<close>

record VideoSource =
  source_id :: string
  durationInSeconds :: real
  widthInPixels :: "nat option"
  heightInPixels :: "nat option"
  frameRate :: real

record TrimmedRegions =
  startSeconds :: real
  endSeconds :: real

record TimelineClip =
  clip_id :: string
  sourceId :: string
  sourceInPointSeconds :: real
  sourceOutPointSeconds :: real
  timelinePositionSeconds :: real
  trimmed :: TrimmedRegions

record MaskData =
  data :: "8 word list"
  width :: nat
  height :: nat

record FrameMask =
  frameTimeSeconds :: real
  mask :: MaskData

record ColorRegion =
  region_id :: string
  clipId :: string
  frameMasks :: "FrameMask list"
  isProcessing :: bool
  totalFrames :: nat
  processedFrames :: nat

section \<open>Playback store (playbackStore.ts)\<close>

record PlaybackStore =
  currentTime :: real
  isPlaying :: bool

definition initialPlayback :: PlaybackStore where
  "initialPlayback = \<lparr>currentTime = 0, isPlaying = False\<rparr>"

definition setCurrentTime :: "real \<Rightarrow> PlaybackStore \<Rightarrow> PlaybackStore" where
  "setCurrentTime time pb = pb\<lparr>currentTime := max 0 time\<rparr>"

definition play :: "PlaybackStore \<Rightarrow> PlaybackStore" where
  "play pb = pb\<lparr>isPlaying := True\<rparr>"

definition pause :: "PlaybackStore \<Rightarrow> PlaybackStore" where
  "pause pb = pb\<lparr>isPlaying := False\<rparr>"

definition toggle :: "PlaybackStore \<Rightarrow> PlaybackStore" where
  "toggle pb = pb\<lparr>isPlaying := \<not> isPlaying pb\<rparr>"

definition seek :: "real \<Rightarrow> PlaybackStore \<Rightarrow> PlaybackStore" where
  "seek time pb = pb\<lparr>currentTime := max 0 time, isPlaying := False\<rparr>"

definition seekRelative :: "real \<Rightarrow> PlaybackStore \<Rightarrow> PlaybackStore" where
  "seekRelative delta pb =
     (let current = currentTime pb
      in pb\<lparr>currentTime := max 0 (current + delta), isPlaying := False\<rparr>)"

section \<open>Clip slice of the timeline store (stores/slices/clipSlice.ts)\<close>

record TimelineStore =
  clips :: "TimelineClip list"
  selectedClipId :: "string option"
  pixelsPerSecond :: real
  colorRegions :: "ColorRegion list"

definition initialTimeline :: TimelineStore where
  "initialTimeline =
     \<lparr>clips = [], selectedClipId = None, pixelsPerSecond = 50, colorRegions = []\<rparr>"

definition getClipDuration :: "TimelineClip \<Rightarrow> real" where
  "getClipDuration clip = sourceOutPointSeconds clip - sourceInPointSeconds clip"

text \<open>\<open>recalculatePositions\<close>: the \<open>map\<close> callback carries \<open>currentPosition\<close>.\<close>

fun recalculateFrom :: "real \<Rightarrow> TimelineClip list \<Rightarrow> TimelineClip list" where
  "recalculateFrom currentPosition [] = []"
| "recalculateFrom currentPosition (clip # rest) =
     clip\<lparr>timelinePositionSeconds := currentPosition\<rparr>
       # recalculateFrom (currentPosition + getClipDuration clip) rest"

definition recalculatePositions :: "TimelineClip list \<Rightarrow> TimelineClip list" where
  "recalculatePositions cs = recalculateFrom 0 cs"

definition calculateTotalDuration :: "TimelineClip list \<Rightarrow> real" where
  "calculateTotalDuration cs = foldl (\<lambda>total clip. total + getClipDuration clip) 0 cs"

definition getSourceTimeForPlayhead :: "TimelineClip \<Rightarrow> real \<Rightarrow> real option" where
  "getSourceTimeForPlayhead clip time =
     (let clipDuration = getClipDuration clip;
          clipEnd = timelinePositionSeconds clip + clipDuration
      in if time < timelinePositionSeconds clip \<or> time > clipEnd then None
         else Some (sourceInPointSeconds clip + (time - timelinePositionSeconds clip)))"

definition adjustPlayheadForTrim ::
  "string \<Rightarrow> TimelineClip list \<Rightarrow> TimelineClip list \<Rightarrow> PlaybackStore \<Rightarrow> PlaybackStore" where
  "adjustPlayheadForTrim cid oldClips newClips pb =
     (case (find (\<lambda>c. clip_id c = cid) oldClips, find (\<lambda>c. clip_id c = cid) newClips) of
        (Some oldClip, Some newClip) \<Rightarrow>
          (case getSourceTimeForPlayhead oldClip (currentTime pb) of
             None \<Rightarrow> pb
           | Some sourceTimeBeforeTrim \<Rightarrow>
               if sourceTimeBeforeTrim \<ge> sourceInPointSeconds newClip
                  \<and> sourceTimeBeforeTrim \<le> sourceOutPointSeconds newClip
               then
                 (let newTimelineTime = timelinePositionSeconds newClip
                        + (sourceTimeBeforeTrim - sourceInPointSeconds newClip)
                  in if \<bar>newTimelineTime - currentTime pb\<bar> > 1 / 1000
                     then setCurrentTime newTimelineTime pb else pb)
               else if sourceTimeBeforeTrim < sourceInPointSeconds newClip
                 then setCurrentTime (timelinePositionSeconds newClip) pb
                 else setCurrentTime (timelinePositionSeconds newClip + getClipDuration newClip) pb)
      | _ \<Rightarrow> pb)"

definition clampTrimStart :: "TimelineClip \<Rightarrow> real \<Rightarrow> real" where
  "clampTrimStart clip newSourceInPointSeconds =
     max 0 (min newSourceInPointSeconds (sourceOutPointSeconds clip - 1 / 10))"

definition clampTrimEnd :: "TimelineClip \<Rightarrow> real \<Rightarrow> real \<Rightarrow> real" where
  "clampTrimEnd clip newSourceOutPointSeconds sourceDuration =
     min sourceDuration (max newSourceOutPointSeconds (sourceInPointSeconds clip + 1 / 10))"

text \<open>
  \<open>createSplitClips\<close>: \<open>None\<close> is the \<open>null\<close> result. The identifier of the second
  clip comes from \<open>generateId()\<close> (a random UUID); it is passed in as \<open>newId\<close>.
\<close>

definition createSplitClips ::
  "TimelineClip \<Rightarrow> real \<Rightarrow> string \<Rightarrow> (TimelineClip \<times> TimelineClip) option" where
  "createSplitClips clip atTimelineTimeSeconds newId =
     (let clipDuration = getClipDuration clip;
          clipEnd = timelinePositionSeconds clip + clipDuration
      in if atTimelineTimeSeconds \<le> timelinePositionSeconds clip \<or> atTimelineTimeSeconds \<ge> clipEnd
         then None
         else
           (let splitOffset = atTimelineTimeSeconds - timelinePositionSeconds clip;
                sourceSplitTime = sourceInPointSeconds clip + splitOffset;
                firstClip = clip\<lparr>sourceOutPointSeconds := sourceSplitTime,
                  trimmed := \<lparr>startSeconds = startSeconds (trimmed clip), endSeconds = 0\<rparr>\<rparr>;
                secondClip = clip\<lparr>clip_id := newId,
                  sourceInPointSeconds := sourceSplitTime,
                  timelinePositionSeconds := atTimelineTimeSeconds,
                  trimmed := \<lparr>startSeconds = 0, endSeconds = endSeconds (trimmed clip)\<rparr>\<rparr>
            in Some (firstClip, secondClip)))"

text \<open>
  The store operations. The source registry is the lookup \<open>getSource\<close>
  (\<open>useSourceStore.getState().getSource\<close>); identifiers produced by \<open>generateId()\<close>
  are arguments.
\<close>

definition getDuration :: "TimelineStore \<Rightarrow> real" where
  "getDuration st = calculateTotalDuration (clips st)"

definition addClip ::
  "(string \<Rightarrow> VideoSource option) \<Rightarrow> string \<Rightarrow> string \<Rightarrow> TimelineStore \<Rightarrow> TimelineStore" where
  "addClip getSource sid newId st =
     (case getSource sid of
        None \<Rightarrow> st
      | Some source \<Rightarrow>
          (let newClip = \<lparr>clip_id = newId, sourceId = sid, sourceInPointSeconds = 0,
                 sourceOutPointSeconds = durationInSeconds source,
                 timelinePositionSeconds = 0,
                 trimmed = \<lparr>startSeconds = 0, endSeconds = 0\<rparr>\<rparr>
           in st\<lparr>clips := recalculatePositions (clips st @ [newClip])\<rparr>))"

definition removeClip :: "string \<Rightarrow> TimelineStore \<Rightarrow> TimelineStore" where
  "removeClip cid st =
     st\<lparr>clips := recalculatePositions (filter (\<lambda>c. clip_id c \<noteq> cid) (clips st)),
        selectedClipId := (if selectedClipId st = Some cid then None else selectedClipId st)\<rparr>"

text \<open>\<open>findIndex\<close>: \<open>None\<close> stands for \<open>-1\<close>.\<close>

fun findIndex :: "('a \<Rightarrow> bool) \<Rightarrow> 'a list \<Rightarrow> nat option" where
  "findIndex P [] = None"
| "findIndex P (x # xs) =
     (if P x then Some 0 else map_option Suc (findIndex P xs))"

text \<open>\<open>splice(i, 1)\<close> and \<open>splice(i, 0, x)\<close> on a copy of the array.\<close>

definition spliceOut :: "nat \<Rightarrow> 'a list \<Rightarrow> 'a list" where
  "spliceOut i xs = take i xs @ drop (Suc i) xs"

definition spliceIn :: "nat \<Rightarrow> 'a \<Rightarrow> 'a list \<Rightarrow> 'a list" where
  "spliceIn i x xs = take i xs @ x # drop i xs"

definition reorderClips :: "string \<Rightarrow> string \<Rightarrow> TimelineStore \<Rightarrow> TimelineStore" where
  "reorderClips activeId overId st =
     (if activeId = overId then st
      else case (findIndex (\<lambda>c. clip_id c = activeId) (clips st),
                 findIndex (\<lambda>c. clip_id c = overId) (clips st)) of
             (Some oldIndex, Some newIndex) \<Rightarrow>
               (let movedClip = clips st ! oldIndex;
                    newClips = spliceIn newIndex movedClip (spliceOut oldIndex (clips st))
                in st\<lparr>clips := recalculatePositions newClips\<rparr>)
           | _ \<Rightarrow> st)"

text \<open>The callbacks that \<open>trimClipStart\<close> and \<open>trimClipEnd\<close> map over the clips.\<close>

definition trimStartOfClip :: "string \<Rightarrow> real \<Rightarrow> TimelineClip \<Rightarrow> TimelineClip" where
  "trimStartOfClip cid newSourceInPointSeconds clip =
     (if clip_id clip \<noteq> cid then clip
      else
        (let clampedInPoint = clampTrimStart clip newSourceInPointSeconds;
             minAllowedInPoint = sourceInPointSeconds clip - startSeconds (trimmed clip);
             finalInPoint = max minAllowedInPoint clampedInPoint;
             delta = finalInPoint - sourceInPointSeconds clip
         in if delta = 0 then clip
            else clip\<lparr>sourceInPointSeconds := finalInPoint,
                   trimmed := (trimmed clip)\<lparr>startSeconds :=
                     max 0 (startSeconds (trimmed clip) + delta)\<rparr>\<rparr>))"

definition trimEndOfClip ::
  "(string \<Rightarrow> VideoSource option) \<Rightarrow> string \<Rightarrow> real \<Rightarrow> TimelineClip \<Rightarrow> TimelineClip" where
  "trimEndOfClip getSource cid newSourceOutPointSeconds clip =
     (if clip_id clip \<noteq> cid then clip
      else case getSource (sourceId clip) of
        None \<Rightarrow> clip
      | Some source \<Rightarrow>
        (let clampedOutPoint =
               clampTrimEnd clip newSourceOutPointSeconds (durationInSeconds source);
             maxAllowedOutPoint = sourceOutPointSeconds clip + endSeconds (trimmed clip);
             finalOutPoint = min maxAllowedOutPoint clampedOutPoint;
             delta = sourceOutPointSeconds clip - finalOutPoint
         in if delta = 0 then clip
            else clip\<lparr>sourceOutPointSeconds := finalOutPoint,
                   trimmed := (trimmed clip)\<lparr>endSeconds :=
                     max 0 (endSeconds (trimmed clip) + delta)\<rparr>\<rparr>))"

definition trimClipStart ::
  "string \<Rightarrow> real \<Rightarrow> TimelineStore \<times> PlaybackStore \<Rightarrow> TimelineStore \<times> PlaybackStore" where
  "trimClipStart cid newSourceInPointSeconds sp =
     (case sp of (st, pb) \<Rightarrow>
        (let oldClips = clips st;
             updatedClips = recalculatePositions
               (map (trimStartOfClip cid newSourceInPointSeconds) (clips st))
         in (st\<lparr>clips := updatedClips\<rparr>, adjustPlayheadForTrim cid oldClips updatedClips pb)))"

definition trimClipEnd ::
  "(string \<Rightarrow> VideoSource option) \<Rightarrow> string \<Rightarrow> real
     \<Rightarrow> TimelineStore \<times> PlaybackStore \<Rightarrow> TimelineStore \<times> PlaybackStore" where
  "trimClipEnd getSource cid newSourceOutPointSeconds sp =
     (case sp of (st, pb) \<Rightarrow>
        (let oldClips = clips st;
             updatedClips = recalculatePositions
               (map (trimEndOfClip getSource cid newSourceOutPointSeconds) (clips st))
         in (st\<lparr>clips := updatedClips\<rparr>, adjustPlayheadForTrim cid oldClips updatedClips pb)))"

definition splitClip :: "string \<Rightarrow> real \<Rightarrow> string \<Rightarrow> TimelineStore \<Rightarrow> TimelineStore" where
  "splitClip cid atTimelineTimeSeconds newId st =
     (case find (\<lambda>c. clip_id c = cid) (clips st) of
        None \<Rightarrow> st
      | Some clip \<Rightarrow>
          (case createSplitClips clip atTimelineTimeSeconds newId of
             None \<Rightarrow> st
           | Some (firstClip, secondClip) \<Rightarrow>
               st\<lparr>clips := recalculatePositions
                 (concat (map (\<lambda>c. if clip_id c = cid then [firstClip, secondClip] else [c])
                    (clips st)))\<rparr>))"

definition clearClips :: "TimelineStore \<Rightarrow> TimelineStore" where
  "clearClips st = st\<lparr>clips := [], selectedClipId := None\<rparr>"

text \<open>A mutation of the edit decision list, with the identifier it draws, if any.\<close>

datatype mutation =
    AddClip string string
  | RemoveClip string
  | ReorderClips string string
  | SplitClip string real string
  | TrimClipStart string real
  | TrimClipEnd string real
  | ClearClips

fun applyMutation ::
  "(string \<Rightarrow> VideoSource option) \<Rightarrow> TimelineStore \<times> PlaybackStore \<Rightarrow> mutation
     \<Rightarrow> TimelineStore \<times> PlaybackStore" where
  "applyMutation getSource (st, pb) (AddClip sid newId) = (addClip getSource sid newId st, pb)"
| "applyMutation getSource (st, pb) (RemoveClip cid) = (removeClip cid st, pb)"
| "applyMutation getSource (st, pb) (ReorderClips a b) = (reorderClips a b st, pb)"
| "applyMutation getSource (st, pb) (SplitClip cid t newId) = (splitClip cid t newId st, pb)"
| "applyMutation getSource (st, pb) (TrimClipStart cid x) = trimClipStart cid x (st, pb)"
| "applyMutation getSource (st, pb) (TrimClipEnd cid x) = trimClipEnd getSource cid x (st, pb)"
| "applyMutation getSource (st, pb) ClearClips = (clearClips st, pb)"

definition runMutations ::
  "(string \<Rightarrow> VideoSource option) \<Rightarrow> TimelineStore \<times> PlaybackStore \<Rightarrow> mutation list
     \<Rightarrow> TimelineStore \<times> PlaybackStore" where
  "runMutations getSource sp ms = foldl (applyMutation getSource) sp ms"

text \<open>Contiguity, as the data model states it: clip \<open>i\<close> starts where the clips before it end.\<close>

definition contiguous :: "TimelineClip list \<Rightarrow> bool" where
  "contiguous cs \<longleftrightarrow>
     (\<forall>i<length cs. timelinePositionSeconds (cs ! i) = sum_list (map getClipDuration (take i cs)))"

section \<open>Store invariants\<close>

text \<open>
  What every clip the store builds satisfies: the in-point is not negative and lies before
  the out-point, the trim memory is not negative, and the out-point does not exceed the
  duration of the source (when the registry still holds it).
\<close>

definition wellFormedClip :: "(string \<Rightarrow> VideoSource option) \<Rightarrow> TimelineClip \<Rightarrow> bool" where
  "wellFormedClip getSource clip \<longleftrightarrow>
     0 \<le> sourceInPointSeconds clip
     \<and> sourceInPointSeconds clip < sourceOutPointSeconds clip
     \<and> 0 \<le> startSeconds (trimmed clip)
     \<and> 0 \<le> endSeconds (trimmed clip)
     \<and> (case getSource (sourceId clip) of
           None \<Rightarrow> True
         | Some source \<Rightarrow> sourceOutPointSeconds clip \<le> durationInSeconds source)"

text \<open>Contiguity from a given position, by recursion over the list.\<close>

fun contiguousFrom :: "real \<Rightarrow> TimelineClip list \<Rightarrow> bool" where
  "contiguousFrom p [] = True"
| "contiguousFrom p (clip # rest) =
     (timelinePositionSeconds clip = p \<and> contiguousFrom (p + getClipDuration clip) rest)"

text \<open>A clip whose duration and trim memory are not negative.\<close>

definition extentsNonNegative :: "TimelineClip \<Rightarrow> bool" where
  "extentsNonNegative c \<longleftrightarrow>
     0 \<le> getClipDuration c \<and> 0 \<le> startSeconds (trimmed c) \<and> 0 \<le> endSeconds (trimmed c)"

text \<open>
  The registry only admits a source whose probed duration is positive
  (\<open>extractVideoMetadata\<close> in sourceStore.ts rejects \<open>duration <= 0\<close>).
\<close>

definition validSources :: "(string \<Rightarrow> VideoSource option) \<Rightarrow> bool" where
  "validSources getSource \<longleftrightarrow>
     (\<forall>sid source. getSource sid = Some source \<longrightarrow> 0 < durationInSeconds source)"

text \<open>
  \<open>generateId()\<close> returns a version-4 UUID; a run in which every identifier it returns
  is new to the clip list is described by \<open>generatedIdsFresh\<close>.
\<close>

fun mutationIdFresh :: "mutation \<Rightarrow> TimelineClip list \<Rightarrow> bool" where
  "mutationIdFresh (AddClip sid newId) cs = (newId \<notin> set (map clip_id cs))"
| "mutationIdFresh (SplitClip cid t newId) cs = (newId \<notin> set (map clip_id cs))"
| "mutationIdFresh _ cs = True"

fun generatedIdsFresh ::
  "(string \<Rightarrow> VideoSource option) \<Rightarrow> TimelineStore \<times> PlaybackStore \<Rightarrow> mutation list \<Rightarrow> bool" where
  "generatedIdsFresh getSource sp [] = True"
| "generatedIdsFresh getSource sp (m # ms) =
     (mutationIdFresh m (clips (fst sp))
      \<and> generatedIdsFresh getSource (applyMutation getSource sp m) ms)"

section \<open>Timeline geometry (lib/utils.ts)\<close>





section \<open>Masks (lib/tracking/clipProcessor.ts, components/SegmentOverlay.tsx)\<close>

definition getMaskForTime :: "FrameMask list \<Rightarrow> real \<Rightarrow> FrameMask option" where
  "getMaskForTime fms timeSeconds =
     (case fms of
        [] \<Rightarrow> None
      | [fm] \<Rightarrow> Some fm
      | first # _ \<Rightarrow>
          Some (fst (foldl
            (\<lambda>(closest, closestDiff) fm.
               (let diff = \<bar>timeSeconds - frameTimeSeconds fm\<bar>
                in if diff < closestDiff then (fm, diff) else (closest, closestDiff)))
            (first, \<bar>timeSeconds - frameTimeSeconds first\<bar>) fms)))"

text \<open>
  \<open>combineMasks\<close> (the preview overlay): a fresh zero-filled byte array of the first
  mask's length, in which every index where some mask is non-zero is set to 1; a write
  past the end of a typed array is dropped.
\<close>

fun orInto :: "8 word list \<Rightarrow> 8 word list \<Rightarrow> 8 word list" where
  "orInto [] ds = []"
| "orInto (c # cs) [] = c # cs"
| "orInto (c # cs) (d # ds) = (if d > 0 then 1 else c) # orInto cs ds"

definition combineMasks :: "MaskData list \<Rightarrow> MaskData option" where
  "combineMasks masks =
     (case masks of
        [] \<Rightarrow> None
      | [m] \<Rightarrow> Some m
      | first # _ \<Rightarrow>
          Some \<lparr>data = foldl orInto (replicate (length (data first)) 0) (map data masks),
                width = width first, height = height first\<rparr>)"

text \<open>
  The masks that the preview overlay collects for the current source time, one per
  region that has frame masks, and the mask it hands to the renderer when no point
  preview is active.
\<close>

definition masksAtTime :: "ColorRegion list \<Rightarrow> real \<Rightarrow> MaskData list" where
  "masksAtTime regions t =
     concat (map (\<lambda>region.
       if length (frameMasks region) > 0 then
         (case getMaskForTime (frameMasks region) t of
            Some frameMask \<Rightarrow> [mask frameMask]
          | None \<Rightarrow> [])
       else []) regions)"

definition overlayMask :: "ColorRegion list \<Rightarrow> real \<Rightarrow> MaskData option" where
  "overlayMask regions t =
     (if length regions > 0 \<and> length (masksAtTime regions t) > 0
      then combineMasks (masksAtTime regions t) else None)"

section \<open>Export (lib/export/videoExporter.ts)\<close>

text \<open>\<open>getMaskForClip\<close>: the loop returns from its first region that yields a frame mask.\<close>

fun getMaskForClip :: "ColorRegion list \<Rightarrow> real \<Rightarrow> MaskData option" where
  "getMaskForClip [] sourceTime = None"
| "getMaskForClip (region # rest) sourceTime =
     (if length (frameMasks region) > 0 then
        (case getMaskForTime (frameMasks region) sourceTime of
           Some frameMask \<Rightarrow> Some (mask frameMask)
         | None \<Rightarrow> getMaskForClip rest sourceTime)
      else getMaskForClip rest sourceTime)"

text \<open>What \<open>renderWithMask\<close> asks of the renderer.\<close>

datatype renderCall = Render MaskData | RenderPassthrough

definition renderWithMask :: "ColorRegion list \<Rightarrow> real \<Rightarrow> renderCall" where
  "renderWithMask regions sourceTime =
     (case getMaskForClip regions sourceTime of
        Some m \<Rightarrow> Render m
      | None \<Rightarrow> RenderPassthrough)"

datatype exportError = NoClipsToExport | NoValidVideoSources

definition validateClips :: "TimelineClip list \<Rightarrow> exportError + unit" where
  "validateClips cs = (if length cs = 0 then Inl NoClipsToExport else Inr ())"

definition validateResolution :: "nat \<Rightarrow> nat \<Rightarrow> exportError + unit" where
  "validateResolution w h = (if w = 0 \<or> h = 0 then Inl NoValidVideoSources else Inr ())"

text \<open>
  \<open>source?.widthInPixels && source?.heightInPixels\<close> holds when the source is found and
  both dimensions are present and not zero; \<open>sourceDimensions\<close> then gives the two.
\<close>

definition sourceDimensions :: "VideoSource option \<Rightarrow> (nat \<times> nat) option" where
  "sourceDimensions src =
     (case src of
        None \<Rightarrow> None
      | Some source \<Rightarrow>
          (case (widthInPixels source, heightInPixels source) of
             (Some w, Some h) \<Rightarrow> if w \<noteq> 0 \<and> h \<noteq> 0 then Some (w, h) else None
           | _ \<Rightarrow> None))"

definition getOutputResolution ::
  "TimelineClip list \<Rightarrow> (string \<Rightarrow> VideoSource option) \<Rightarrow> nat \<times> nat" where
  "getOutputResolution cs getSource =
     (let (maxWidth, maxHeight) =
        foldl (\<lambda>(maxWidth, maxHeight) clip.
                 (case sourceDimensions (getSource (sourceId clip)) of
                    Some (w, h) \<Rightarrow> (max maxWidth w, max maxHeight h)
                  | None \<Rightarrow> (maxWidth, maxHeight)))
              (0, 0) cs
      in (maxWidth div 2 * 2, maxHeight div 2 * 2))"

definition DEFAULT_FRAME_RATE :: real where
  "DEFAULT_FRAME_RATE = 30"

definition getMaxFrameRate :: "TimelineClip list \<Rightarrow> (string \<Rightarrow> VideoSource option) \<Rightarrow> real" where
  "getMaxFrameRate cs getSource =
     (let maxFrameRate =
        foldl (\<lambda>maxFrameRate clip.
                 (case getSource (sourceId clip) of
                    Some source \<Rightarrow>
                      if frameRate source \<noteq> 0 then max maxFrameRate (frameRate source)
                      else maxFrameRate
                  | None \<Rightarrow> maxFrameRate))
              0 cs
      in if maxFrameRate > 0 then maxFrameRate else DEFAULT_FRAME_RATE)"

text \<open>
  \<open>exportVideo\<close> up to the call of \<open>setupExportResources\<close>, which is the first
  statement that creates a canvas, a renderer, video elements or a recorder. The result
  is the error thrown, or the arguments with which the set-up is entered.
\<close>

record ExportSetup =
  setupWidth :: nat
  setupHeight :: nat
  setupFrameRate :: real
  setupTotalDuration :: real

definition exportVideo ::
  "TimelineClip list \<Rightarrow> (string \<Rightarrow> VideoSource option) \<Rightarrow> exportError + ExportSetup" where
  "exportVideo cs getSource =
     (case validateClips cs of
        Inl e \<Rightarrow> Inl e
      | Inr _ \<Rightarrow>
          (let totalDuration = calculateTotalDuration cs;
               (w, h) = getOutputResolution cs getSource;
               fr = getMaxFrameRate cs getSource
           in case validateResolution w h of
                Inl e \<Rightarrow> Inl e
              | Inr _ \<Rightarrow> Inr \<lparr>setupWidth = w, setupHeight = h, setupFrameRate = fr,
                                setupTotalDuration = totalDuration\<rparr>))"

section \<open>Undo history snapshots (stores/timelineStore.ts)\<close>

text \<open>
  The part of the state that the history tracks: the clips, and of every region its
  identifier, its clip and its processing flag.
\<close>

record RegionSnapshot =
  snapshot_id :: string
  snapshot_clipId :: string
  snapshot_isProcessing :: bool

record Snapshot =
  snapshot_clips :: "TimelineClip list"
  snapshot_colorRegions :: "RegionSnapshot list"

definition partialize :: "TimelineStore \<Rightarrow> Snapshot" where
  "partialize state =
     \<lparr>snapshot_clips = clips state,
      snapshot_colorRegions =
        map (\<lambda>r. \<lparr>snapshot_id = region_id r, snapshot_clipId = clipId r,
                   snapshot_isProcessing = isProcessing r\<rparr>) (colorRegions state)\<rparr>"

text \<open>The \<open>for\<close> loop of \<open>shallowEqualColorRegions\<close> over two lists of equal length.\<close>

fun regionsLoop :: "RegionSnapshot list \<Rightarrow> RegionSnapshot list \<Rightarrow> bool" where
  "regionsLoop (regionA # as) (regionB # bs) =
     (if snapshot_id regionA \<noteq> snapshot_id regionB
         \<or> snapshot_clipId regionA \<noteq> snapshot_clipId regionB
         \<or> snapshot_isProcessing regionA \<noteq> snapshot_isProcessing regionB
      then False else regionsLoop as bs)"
| "regionsLoop _ _ = True"

text \<open>
  \<open>JSON.stringify\<close> is the platform's serialiser; it is the parameter \<open>stringify\<close>.
\<close>

definition shallowEqualColorRegions ::
  "(TimelineClip list \<Rightarrow> string) \<Rightarrow> Snapshot \<Rightarrow> Snapshot \<Rightarrow> bool" where
  "shallowEqualColorRegions stringify a b =
     (if stringify (snapshot_clips a) \<noteq> stringify (snapshot_clips b) then False
      else if length (snapshot_colorRegions a) \<noteq> length (snapshot_colorRegions b) then False
      else regionsLoop (snapshot_colorRegions a) (snapshot_colorRegions b))"

section \<open>A small registry and timeline for concrete runs\<close>

definition exampleSources :: "string \<Rightarrow> VideoSource option" where
  "exampleSources sid =
     (if sid = ''srcA'' then
        Some \<lparr>source_id = ''srcA'', durationInSeconds = 10, widthInPixels = Some 1920,
              heightInPixels = Some 1080, frameRate = 30\<rparr>
      else if sid = ''srcB'' then
        Some \<lparr>source_id = ''srcB'', durationInSeconds = 20, widthInPixels = Some 1280,
              heightInPixels = Some 720, frameRate = 60\<rparr>
      else None)"

definition exampleClipA :: TimelineClip where
  "exampleClipA = \<lparr>clip_id = ''a'', sourceId = ''srcA'', sourceInPointSeconds = 0,
     sourceOutPointSeconds = 10, timelinePositionSeconds = 0,
     trimmed = \<lparr>startSeconds = 0, endSeconds = 0\<rparr>\<rparr>"

definition exampleClipB :: TimelineClip where
  "exampleClipB = \<lparr>clip_id = ''b'', sourceId = ''srcB'', sourceInPointSeconds = 0,
     sourceOutPointSeconds = 20, timelinePositionSeconds = 10,
     trimmed = \<lparr>startSeconds = 0, endSeconds = 0\<rparr>\<rparr>"

definition exampleTimeline :: TimelineStore where
  "exampleTimeline = initialTimeline\<lparr>clips := [exampleClipA, exampleClipB]\<rparr>"

definition exampleRegionLeft :: ColorRegion where
  "exampleRegionLeft = \<lparr>region_id = ''r1'', clipId = ''a'',
     frameMasks = [\<lparr>frameTimeSeconds = 0, mask = \<lparr>data = [1, 0], width = 2, height = 1\<rparr>\<rparr>],
     isProcessing = False, totalFrames = 1, processedFrames = 1\<rparr>"

definition exampleRegionRight :: ColorRegion where
  "exampleRegionRight = \<lparr>region_id = ''r2'', clipId = ''a'',
     frameMasks = [\<lparr>frameTimeSeconds = 0, mask = \<lparr>data = [0, 1], width = 2, height = 1\<rparr>\<rparr>],
     isProcessing = False, totalFrames = 1, processedFrames = 1\<rparr>"

text \<open>A source of one pixel by one pixel, which the registry admits, and a clip of it.\<close>

definition tinySources :: "string \<Rightarrow> VideoSource option" where
  "tinySources sid =
     (if sid = ''srcT'' then
        Some \<lparr>source_id = ''srcT'', durationInSeconds = 2, widthInPixels = Some 1,
              heightInPixels = Some 1, frameRate = 30\<rparr>
      else None)"

definition tinyClip :: TimelineClip where
  "tinyClip = \<lparr>clip_id = ''t'', sourceId = ''srcT'', sourceInPointSeconds = 0,
     sourceOutPointSeconds = 2, timelinePositionSeconds = 0,
     trimmed = \<lparr>startSeconds = 0, endSeconds = 0\<rparr>\<rparr>"


section \<open>Contiguity of the clip list\<close>

lemma getClipDuration_recalculateFrom:
  "map getClipDuration (recalculateFrom p cs) = map getClipDuration cs"
  by (induction cs arbitrary: p) (simp_all add: getClipDuration_def)

lemma length_recalculateFrom: "length (recalculateFrom p cs) = length cs"
  by (induction cs arbitrary: p) simp_all

lemma position_recalculateFrom:
  "i < length cs \<Longrightarrow>
     timelinePositionSeconds (recalculateFrom p cs ! i) = p + sum_list (map getClipDuration (take i cs))"
proof (induction cs arbitrary: p i)
  case Nil
  then show ?case by simp
next
  case (Cons c cs)
  show ?case
  proof (cases i)
    case 0
    then show ?thesis by simp
  next
    case (Suc j)
    with Cons.prems have "j < length cs" by simp
    from Cons.IH [OF this] Suc show ?thesis by simp
  qed
qed

lemma contiguous_recalculatePositions: "contiguous (recalculatePositions cs)"
  unfolding contiguous_def recalculatePositions_def
proof (intro allI impI)
  fix i
  assume "i < length (recalculateFrom 0 cs)"
  then have i: "i < length cs" by (simp add: length_recalculateFrom)
  have "map getClipDuration (take i (recalculateFrom 0 cs)) = map getClipDuration (take i cs)"
    by (simp add: getClipDuration_recalculateFrom flip: take_map)
  with position_recalculateFrom [OF i, of 0]
  show "timelinePositionSeconds (recalculateFrom 0 cs ! i)
          = sum_list (map getClipDuration (take i (recalculateFrom 0 cs)))"
    by simp
qed

lemma contiguous_Nil: "contiguous []"
  by (simp add: contiguous_def)

lemma contiguous_applyMutation:
  "contiguous (clips (fst sp)) \<Longrightarrow> contiguous (clips (fst (applyMutation getSource sp m)))"
proof (cases sp)
  case (Pair st pb)
  assume c: "contiguous (clips (fst sp))"
  show ?thesis
  proof (cases m)
    case (AddClip sid newId)
    with Pair c show ?thesis
      by (simp add: addClip_def contiguous_recalculatePositions split: option.splits)
  next
    case (RemoveClip cid)
    with Pair show ?thesis by (simp add: removeClip_def contiguous_recalculatePositions)
  next
    case (ReorderClips a b)
    with Pair c show ?thesis
      by (simp add: reorderClips_def contiguous_recalculatePositions Let_def split: option.splits)
  next
    case (SplitClip cid t newId)
    with Pair c show ?thesis
      by (simp add: splitClip_def contiguous_recalculatePositions split: option.splits prod.splits)
  next
    case (TrimClipStart cid x)
    with Pair show ?thesis
      by (simp add: trimClipStart_def contiguous_recalculatePositions Let_def)
  next
    case (TrimClipEnd cid x)
    with Pair show ?thesis
      by (simp add: trimClipEnd_def contiguous_recalculatePositions Let_def)
  next
    case ClearClips
    with Pair show ?thesis by (simp add: clearClips_def contiguous_Nil)
  qed
qed

lemma contiguous_foldl:
  "contiguous (clips (fst sp)) \<Longrightarrow>
     contiguous (clips (fst (foldl (applyMutation getSource) sp ms)))"
  by (induction ms arbitrary: sp) (simp_all add: contiguous_applyMutation)

text \<open>
  Claim C1. Whatever the source registry holds, whatever the playback state is, and
  whatever sequence of \<open>addClip\<close>, \<open>removeClip\<close>, \<open>reorderClips\<close>, \<open>splitClip\<close>,
  \<open>trimClipStart\<close>, \<open>trimClipEnd\<close> and \<open>clearClips\<close> is applied to the initially empty
  clip list, in the resulting list the timeline position of clip \<open>i\<close> is the sum of the
  durations (out-point minus in-point) of the clips before it.
\<close>

theorem clips_stay_contiguous:
  "\<forall>i < length (clips (fst (runMutations getSource (initialTimeline, pb) ms))).
     timelinePositionSeconds (clips (fst (runMutations getSource (initialTimeline, pb) ms)) ! i)
       = (\<Sum>j<i. sourceOutPointSeconds (clips (fst (runMutations getSource (initialTimeline, pb) ms)) ! j)
                - sourceInPointSeconds (clips (fst (runMutations getSource (initialTimeline, pb) ms)) ! j))"
proof -
  let ?cs = "clips (fst (runMutations getSource (initialTimeline, pb) ms))"
  have "contiguous (clips (fst (initialTimeline, pb)))"
    by (simp add: initialTimeline_def contiguous_Nil)
  then have c: "contiguous ?cs"
    unfolding runMutations_def by (rule contiguous_foldl)
  show ?thesis
  proof (intro allI impI)
    fix i
    assume i: "i < length ?cs"
    have "sum_list (map getClipDuration (take i ?cs)) = (\<Sum>j<i. getClipDuration (?cs ! j))"
      using i by (simp add: sum_list_sum_nth lessThan_atLeast0 min_def)
    with c i show "timelinePositionSeconds (?cs ! i)
        = (\<Sum>j<i. sourceOutPointSeconds (?cs ! j) - sourceInPointSeconds (?cs ! j))"
      by (simp add: contiguous_def getClipDuration_def)
  qed
qed

lemmas store_defs = runMutations_def initialTimeline_def initialPlayback_def addClip_def
  removeClip_def reorderClips_def splitClip_def trimClipStart_def trimClipEnd_def clearClips_def
  recalculatePositions_def getClipDuration_def exampleSources_def trimStartOfClip_def
  trimEndOfClip_def clampTrimStart_def clampTrimEnd_def adjustPlayheadForTrim_def
  getSourceTimeForPlayhead_def setCurrentTime_def createSplitClips_def

theorem clips_stay_contiguous_witness:
  "1 < length (clips (fst (runMutations exampleSources (initialTimeline, initialPlayback)
       [AddClip ''srcA'' ''a'', AddClip ''srcB'' ''b'', TrimClipEnd ''a'' 6])))
   \<and> timelinePositionSeconds (clips (fst (runMutations exampleSources
       (initialTimeline, initialPlayback)
       [AddClip ''srcA'' ''a'', AddClip ''srcB'' ''b'', TrimClipEnd ''a'' 6])) ! 1) = 6"
  using clips_stay_contiguous [of exampleSources initialPlayback
     "[AddClip ''srcA'' ''a'', AddClip ''srcB'' ''b'', TrimClipEnd ''a'' 6]"]
  by (simp add: store_defs)

section \<open>Seeking\<close>

text \<open>
  Claim C4, as the code has it. \<open>seek\<close> and \<open>seekRelative\<close> are total, stop playback
  and put the playhead at the target clamped below at 0 (for \<open>seekRelative\<close> the target
  is the current time plus the delta). Neither reads the duration of the timeline:
  there is no upper clamp in the playback store; the ruler's pointer handler clamps to
  the duration before it calls \<open>seek\<close>.
\<close>

theorem seek_pauses_and_clamps_at_zero:
  "isPlaying (seek t pb) = False \<and> currentTime (seek t pb) = max 0 t
   \<and> isPlaying (seekRelative d pb) = False
   \<and> currentTime (seekRelative d pb) = max 0 (currentTime pb + d)"
  by (simp add: seek_def seekRelative_def)

text \<open>
  Claim C4 as stated fails: on the timeline of 30 seconds, seeking to 45 leaves the
  playhead at 45, not at the target clamped into the interval from 0 to the duration.
\<close>

theorem seek_beyond_duration_counterexample:
  "getDuration exampleTimeline = 30
   \<and> currentTime (seek 45 initialPlayback) \<noteq> max 0 (min 45 (getDuration exampleTimeline))"
  by (simp add: getDuration_def calculateTotalDuration_def exampleTimeline_def exampleClipA_def
      exampleClipB_def getClipDuration_def seek_def initialPlayback_def initialTimeline_def)

section \<open>The mask used by the export\<close>

text \<open>
  Claim C2 at two regions of one clip, each with one mask at source time 0, the first
  covering the left pixel and the second the right pixel. The export composites with
  the first region's mask alone, while the preview overlay combines both by OR.
\<close>

theorem export_uses_first_region_mask_only:
  "getMaskForClip [exampleRegionLeft, exampleRegionRight] 0
     = Some \<lparr>data = [1, 0], width = 2, height = 1\<rparr>
   \<and> renderWithMask [exampleRegionLeft, exampleRegionRight] 0
     = Render \<lparr>data = [1, 0], width = 2, height = 1\<rparr>
   \<and> overlayMask [exampleRegionLeft, exampleRegionRight] 0
     = Some \<lparr>data = [1, 1], width = 2, height = 1\<rparr>"
  by (simp add: exampleRegionLeft_def exampleRegionRight_def getMaskForTime_def overlayMask_def
        masksAtTime_def combineMasks_def renderWithMask_def)

section \<open>Preconditions of the export\<close>

lemma foldl_dimensions:
  "foldl (\<lambda>(maxWidth, maxHeight) clip.
            (case sourceDimensions (g (sourceId clip)) of
               Some (w, h) \<Rightarrow> (max maxWidth w, max maxHeight h)
             | None \<Rightarrow> (maxWidth, maxHeight))) (a, b) cs = (a', b')
   \<Longrightarrow> (a' < 2 \<longleftrightarrow> a < 2 \<and> (\<forall>c\<in>set cs. \<forall>w h. sourceDimensions (g (sourceId c)) = Some (w, h) \<longrightarrow> w < 2))
     \<and> (b' < 2 \<longleftrightarrow> b < 2 \<and> (\<forall>c\<in>set cs. \<forall>w h. sourceDimensions (g (sourceId c)) = Some (w, h) \<longrightarrow> h < 2))"
proof (induction cs arbitrary: a b)
  case Nil
  then show ?case by simp
next
  case (Cons c cs)
  show ?case
  proof (cases "sourceDimensions (g (sourceId c))")
    case None
    with Cons.prems Cons.IH [of a b] show ?thesis by simp
  next
    case (Some d)
    obtain w h where d: "d = (w, h)" by (cases d)
    from Cons.prems Some d
    have "foldl (\<lambda>(maxWidth, maxHeight) clip.
            (case sourceDimensions (g (sourceId clip)) of
               Some (w, h) \<Rightarrow> (max maxWidth w, max maxHeight h)
             | None \<Rightarrow> (maxWidth, maxHeight))) (max a w, max b h) cs = (a', b')"
      by simp
    from Cons.IH [OF this] Some d show ?thesis by auto
  qed
qed

lemma validateResolution_even:
  "validateResolution (a div 2 * 2) (b div 2 * 2)
     = (if a < 2 \<or> b < 2 then Inl NoValidVideoSources else Inr ())"
proof -
  have "(a div 2 * 2 = 0 \<or> b div 2 * 2 = 0) \<longleftrightarrow> (a < 2 \<or> b < 2)"
    by presburger
  then show ?thesis
    unfolding validateResolution_def by presburger
qed

text \<open>
  Claim C8, as the code has it. \<open>exportVideo\<close> fails with the no-clips error exactly
  when the clip list is empty. For a non-empty list it fails with the no-valid-source
  error exactly when the output width or the output height is 0, that is when every
  referenced source that has both dimensions non-zero is less than 2 pixels wide, or
  every such source is less than 2 pixels high (in particular when there is no such
  source). Both failures come before the resources are set up; when the set-up is
  entered the list is non-empty and both output dimensions are at least 2.
\<close>

theorem exportVideo_preconditions:
  "(exportVideo cs g = Inl NoClipsToExport \<longleftrightarrow> cs = [])
   \<and> (cs \<noteq> [] \<longrightarrow>
        (exportVideo cs g = Inl NoValidVideoSources \<longleftrightarrow>
           (\<forall>c\<in>set cs. \<forall>w h. sourceDimensions (g (sourceId c)) = Some (w, h) \<longrightarrow> w < 2)
           \<or> (\<forall>c\<in>set cs. \<forall>w h. sourceDimensions (g (sourceId c)) = Some (w, h) \<longrightarrow> h < 2)))
   \<and> (\<forall>setup. exportVideo cs g = Inr setup \<longrightarrow>
         cs \<noteq> [] \<and> 2 \<le> setupWidth setup \<and> 2 \<le> setupHeight setup)"
proof -
  obtain mw mh where f: "foldl (\<lambda>(maxWidth, maxHeight) clip.
            (case sourceDimensions (g (sourceId clip)) of
               Some (w, h) \<Rightarrow> (max maxWidth w, max maxHeight h)
             | None \<Rightarrow> (maxWidth, maxHeight))) (0, 0) cs = (mw, mh)"
    by (cases "foldl (\<lambda>(maxWidth, maxHeight) clip.
            (case sourceDimensions (g (sourceId clip)) of
               Some (w, h) \<Rightarrow> (max maxWidth w, max maxHeight h)
             | None \<Rightarrow> (maxWidth, maxHeight))) (0, 0) cs") auto
  note d = foldl_dimensions [OF f]
  have r: "getOutputResolution cs g = (mw div 2 * 2, mh div 2 * 2)"
    by (simp add: getOutputResolution_def f)
  have w2: "2 \<le> mw div 2 * 2 \<longleftrightarrow> \<not> mw < 2" and h2: "2 \<le> mh div 2 * 2 \<longleftrightarrow> \<not> mh < 2"
    by presburger+
  show ?thesis
  proof (cases "cs = []")
    case True
    then show ?thesis by (simp add: exportVideo_def validateClips_def)
  next
    case False
    have e: "exportVideo cs g =
       (if mw < 2 \<or> mh < 2 then Inl NoValidVideoSources
        else Inr \<lparr>setupWidth = mw div 2 * 2, setupHeight = mh div 2 * 2,
                   setupFrameRate = getMaxFrameRate cs g,
                   setupTotalDuration = calculateTotalDuration cs\<rparr>)"
      using False by (simp add: exportVideo_def validateClips_def r validateResolution_even)
    show ?thesis
      using False d by (auto simp: e w2 h2)
  qed
qed

theorem exportVideo_preconditions_witness:
  "[exampleClipA] \<noteq> []
   \<and> exportVideo [exampleClipA] exampleSources \<noteq> Inl NoValidVideoSources
   \<and> exportVideo [exampleClipA] exampleSources
       = Inr \<lparr>setupWidth = 1920, setupHeight = 1080, setupFrameRate = 30,
               setupTotalDuration = 10\<rparr>
   \<and> 2 \<le> setupWidth \<lparr>setupWidth = 1920, setupHeight = 1080, setupFrameRate = 30,
               setupTotalDuration = 10\<rparr>"
  using exportVideo_preconditions [of "[exampleClipA]" exampleSources]
  by (simp add: exportVideo_def validateClips_def getOutputResolution_def validateResolution_def
        getMaxFrameRate_def calculateTotalDuration_def getClipDuration_def exampleClipA_def
        exampleSources_def sourceDimensions_def)

text \<open>
  Claim C8 as stated fails: the clip of the one-pixel source references a source with
  non-zero width and height, and the export still fails with the no-valid-source error.
\<close>

theorem exportVideo_one_pixel_counterexample:
  "sourceDimensions (tinySources (sourceId tinyClip)) = Some (1, 1)
   \<and> exportVideo [tinyClip] tinySources = Inl NoValidVideoSources"
  by (simp add: sourceDimensions_def tinySources_def tinyClip_def exportVideo_def validateClips_def
       getOutputResolution_def validateResolution_def Let_def)

section \<open>Snapshot equality of the undo history\<close>

lemma regionsLoop_partialized:
  "length as = length bs \<Longrightarrow>
   \<forall>i<length as. region_id (as ! i) = region_id (bs ! i) \<and> clipId (as ! i) = clipId (bs ! i)
      \<and> isProcessing (as ! i) = isProcessing (bs ! i) \<Longrightarrow>
   regionsLoop
     (map (\<lambda>r. \<lparr>snapshot_id = region_id r, snapshot_clipId = clipId r,
                   snapshot_isProcessing = isProcessing r\<rparr>) as)
     (map (\<lambda>r. \<lparr>snapshot_id = region_id r, snapshot_clipId = clipId r,
                   snapshot_isProcessing = isProcessing r\<rparr>) bs)"
proof (induction as bs rule: list_induct2)
  case Nil
  then show ?case by simp
next
  case (Cons a as b bs)
  from Cons.prems have h: "region_id a = region_id b \<and> clipId a = clipId b \<and> isProcessing a = isProcessing b"
    by (auto dest: spec [of _ 0])
  from Cons.prems have "\<forall>i<length as. region_id (as ! i) = region_id (bs ! i) \<and> clipId (as ! i) = clipId (bs ! i)
      \<and> isProcessing (as ! i) = isProcessing (bs ! i)"
    by (auto dest: spec [of _ "Suc i" for i])
  with Cons.IH h show ?case by simp
qed

text \<open>
  Claim C9. Two states with equal clips and with region lists of the same length that
  agree pairwise on identifier, clip and processing flag are equal for the history,
  whatever their frame masks and frame counters are: the equality is computed on the
  partialized states, which no longer hold the masks.
\<close>

theorem snapshot_equality_ignores_masks:
  assumes "clips s1 = clips s2"
    and "length (colorRegions s1) = length (colorRegions s2)"
    and "\<forall>i<length (colorRegions s1).
           region_id (colorRegions s1 ! i) = region_id (colorRegions s2 ! i)
           \<and> clipId (colorRegions s1 ! i) = clipId (colorRegions s2 ! i)
           \<and> isProcessing (colorRegions s1 ! i) = isProcessing (colorRegions s2 ! i)"
  shows "shallowEqualColorRegions stringify (partialize s1) (partialize s2)"
  using assms regionsLoop_partialized [of "colorRegions s1" "colorRegions s2"]
  by (simp add: shallowEqualColorRegions_def partialize_def)

theorem snapshot_equality_ignores_masks_witness:
  "frameMasks exampleRegionLeft \<noteq> frameMasks (exampleRegionLeft\<lparr>frameMasks := [], totalFrames := 5, processedFrames := 0\<rparr>)
   \<and> shallowEqualColorRegions (\<lambda>cs. concat (map clip_id cs))
       (partialize (exampleTimeline\<lparr>colorRegions := [exampleRegionLeft]\<rparr>))
       (partialize (exampleTimeline\<lparr>colorRegions :=
          [exampleRegionLeft\<lparr>frameMasks := [], totalFrames := 5, processedFrames := 0\<rparr>]\<rparr>))"
  using snapshot_equality_ignores_masks
    [of "exampleTimeline\<lparr>colorRegions := [exampleRegionLeft]\<rparr>"
        "exampleTimeline\<lparr>colorRegions :=
          [exampleRegionLeft\<lparr>frameMasks := [], totalFrames := 5, processedFrames := 0\<rparr>]\<rparr>"
        "\<lambda>cs. concat (map clip_id cs)"]
  by (simp add: exampleRegionLeft_def)

section \<open>Durations and contiguity, by recursion\<close>

lemma calculateTotalDuration_foldl:
  "foldl (\<lambda>total clip. total + getClipDuration clip) a cs = a + sum_list (map getClipDuration cs)"
  by (induction cs arbitrary: a) simp_all

lemma calculateTotalDuration_sum:
  "calculateTotalDuration cs = sum_list (map getClipDuration cs)"
  by (simp add: calculateTotalDuration_def calculateTotalDuration_foldl)

lemma calculateTotalDuration_recalculatePositions:
  "calculateTotalDuration (recalculatePositions cs) = calculateTotalDuration cs"
  by (simp add: calculateTotalDuration_sum recalculatePositions_def getClipDuration_recalculateFrom)

lemma contiguousFrom_nth:
  "contiguousFrom p cs \<longleftrightarrow>
     (\<forall>i<length cs. timelinePositionSeconds (cs ! i) = p + sum_list (map getClipDuration (take i cs)))"
proof (induction cs arbitrary: p)
  case Nil
  then show ?case by simp
next
  case (Cons c cs)
  show ?case
    by (simp add: Cons.IH All_less_Suc2 add.assoc)
qed

lemma contiguous_contiguousFrom: "contiguous cs \<longleftrightarrow> contiguousFrom 0 cs"
  by (simp add: contiguous_def contiguousFrom_nth)

lemma contiguousFrom_append:
  "contiguousFrom p (xs @ ys) \<longleftrightarrow>
     contiguousFrom p xs \<and> contiguousFrom (p + sum_list (map getClipDuration xs)) ys"
  by (induction xs arbitrary: p) (simp_all add: add.assoc)

lemma recalculateFrom_contiguous: "contiguousFrom p cs \<Longrightarrow> recalculateFrom p cs = cs"
  by (induction cs arbitrary: p) simp_all

section \<open>Splitting a clip\<close>

lemma find_distinct_nth:
  "distinct (map f xs) \<Longrightarrow> i < length xs \<Longrightarrow> find (\<lambda>x. f x = f (xs ! i)) xs = Some (xs ! i)"
proof (induction xs arbitrary: i)
  case Nil
  then show ?case by simp
next
  case (Cons x xs)
  show ?case
  proof (cases i)
    case 0
    then show ?thesis by simp
  next
    case (Suc j)
    with Cons.prems have j: "j < length xs" and "f (xs ! j) \<in> f ` set xs" by auto
    with Cons.prems have "f x \<noteq> f (xs ! j)" by auto
    with Cons.IH [of j] Cons.prems j Suc show ?thesis by simp
  qed
qed

lemma concat_replace_none:
  "\<forall>x\<in>set xs. f x \<noteq> a \<Longrightarrow> concat (map (\<lambda>x. if f x = a then ys else [x]) xs) = xs"
  by (induction xs) simp_all

lemma concat_replace_distinct:
  "distinct (map f xs) \<Longrightarrow> i < length xs \<Longrightarrow>
     concat (map (\<lambda>x. if f x = f (xs ! i) then ys else [x]) xs) = take i xs @ ys @ drop (Suc i) xs"
proof (induction xs arbitrary: i)
  case Nil
  then show ?case by simp
next
  case (Cons x xs)
  show ?case
  proof (cases i)
    case 0
    from Cons.prems have "f x \<notin> f ` set xs" by simp
    then have "\<forall>y\<in>set xs. f y \<noteq> f x" by (metis imageI)
    from concat_replace_none [OF this] 0 show ?thesis by simp
  next
    case (Suc j)
    with Cons.prems have j: "j < length xs" and "f (xs ! j) \<in> f ` set xs" by auto
    with Cons.prems have "f x \<noteq> f (xs ! j)" by auto
    with Cons.IH [of j] Cons.prems j Suc show ?thesis by simp
  qed
qed

lemma createSplitClips_outside:
  "t \<le> timelinePositionSeconds c \<or> timelinePositionSeconds c + getClipDuration c \<le> t
     \<Longrightarrow> createSplitClips c t newId = None"
  by (auto simp: createSplitClips_def Let_def)

lemma createSplitClips_inside:
  "timelinePositionSeconds c < t \<Longrightarrow> t < timelinePositionSeconds c + getClipDuration c \<Longrightarrow>
   createSplitClips c t newId = Some
     (c\<lparr>sourceOutPointSeconds := sourceInPointSeconds c + (t - timelinePositionSeconds c),
        trimmed := \<lparr>startSeconds = startSeconds (trimmed c), endSeconds = 0\<rparr>\<rparr>,
      c\<lparr>clip_id := newId,
        sourceInPointSeconds := sourceInPointSeconds c + (t - timelinePositionSeconds c),
        timelinePositionSeconds := t,
        trimmed := \<lparr>startSeconds = 0, endSeconds = endSeconds (trimmed c)\<rparr>\<rparr>)"
  by (simp add: createSplitClips_def Let_def)

text \<open>
  Claim C7. In a store whose clips are contiguous and have distinct identifiers, for
  every clip (the one at index \<open>i\<close>): splitting it at a time at or before its timeline
  start, or at or after its timeline end, leaves the store unchanged; splitting it at a
  time strictly inside replaces it by two adjacent clips, the first ending and the
  second (with the fresh identifier, placed at the split time) starting at the source
  time \<open>sourceInPointSeconds + (t - timelinePositionSeconds)\<close>, the cut edges with no trim
  memory; all other clips stay as they are.
\<close>

theorem splitClip_boundary_and_inside:
  assumes d: "distinct (map clip_id (clips st))"
    and c: "contiguous (clips st)"
    and i: "i < length (clips st)"
  shows "(t \<le> timelinePositionSeconds (clips st ! i)
            \<or> timelinePositionSeconds (clips st ! i) + getClipDuration (clips st ! i) \<le> t
          \<longrightarrow> splitClip (clip_id (clips st ! i)) t newId st = st)
     \<and> (timelinePositionSeconds (clips st ! i) < t
          \<and> t < timelinePositionSeconds (clips st ! i) + getClipDuration (clips st ! i)
          \<longrightarrow> splitClip (clip_id (clips st ! i)) t newId st = st\<lparr>clips :=
                take i (clips st)
                @ [(clips st ! i)\<lparr>sourceOutPointSeconds := sourceInPointSeconds (clips st ! i)
                       + (t - timelinePositionSeconds (clips st ! i)),
                     trimmed := \<lparr>startSeconds = startSeconds (trimmed (clips st ! i)),
                                 endSeconds = 0\<rparr>\<rparr>,
                   (clips st ! i)\<lparr>clip_id := newId,
                     sourceInPointSeconds := sourceInPointSeconds (clips st ! i)
                       + (t - timelinePositionSeconds (clips st ! i)),
                     timelinePositionSeconds := t,
                     trimmed := \<lparr>startSeconds = 0,
                                 endSeconds = endSeconds (trimmed (clips st ! i))\<rparr>\<rparr>]
                @ drop (Suc i) (clips st)\<rparr>)"
proof (intro conjI impI)
  let ?cs = "clips st" and ?c = "clips st ! i"
  have f: "find (\<lambda>x. clip_id x = clip_id ?c) ?cs = Some ?c"
    using d i by (rule find_distinct_nth)
  {
    assume "t \<le> timelinePositionSeconds ?c \<or> timelinePositionSeconds ?c + getClipDuration ?c \<le> t"
    then show "splitClip (clip_id ?c) t newId st = st"
      by (simp add: splitClip_def f createSplitClips_outside)
  }
  {
    let ?first = "?c\<lparr>sourceOutPointSeconds := sourceInPointSeconds ?c + (t - timelinePositionSeconds ?c),
        trimmed := \<lparr>startSeconds = startSeconds (trimmed ?c), endSeconds = 0\<rparr>\<rparr>"
    let ?second = "?c\<lparr>clip_id := newId,
        sourceInPointSeconds := sourceInPointSeconds ?c + (t - timelinePositionSeconds ?c),
        timelinePositionSeconds := t,
        trimmed := \<lparr>startSeconds = 0, endSeconds = endSeconds (trimmed ?c)\<rparr>\<rparr>"
    assume inside: "timelinePositionSeconds ?c < t
       \<and> t < timelinePositionSeconds ?c + getClipDuration ?c"
    then have s: "createSplitClips ?c t newId = Some (?first, ?second)"
      by (simp add: createSplitClips_inside)
    have r: "concat (map (\<lambda>x. if clip_id x = clip_id ?c then [?first, ?second] else [x]) ?cs)
        = take i ?cs @ [?first, ?second] @ drop (Suc i) ?cs"
      using d i by (rule concat_replace_distinct)
    let ?P = "sum_list (map getClipDuration (take i ?cs))"
    from c have "contiguousFrom 0 ?cs" by (simp add: contiguous_contiguousFrom)
    then have "contiguousFrom 0 (take i ?cs @ ?c # drop (Suc i) ?cs)"
      using i by (simp add: id_take_nth_drop [symmetric])
    then have A: "contiguousFrom 0 (take i ?cs)"
      and B: "timelinePositionSeconds ?c = ?P"
      and C: "contiguousFrom (?P + getClipDuration ?c) (drop (Suc i) ?cs)"
      by (simp_all add: contiguousFrom_append)
    have e: "?P + getClipDuration ?first + getClipDuration ?second = ?P + getClipDuration ?c"
      by (simp add: getClipDuration_def)
    have C2: "contiguousFrom (?P + getClipDuration ?first + getClipDuration ?second)
        (drop (Suc i) ?cs)"
      unfolding e by (rule C)
    have pf: "timelinePositionSeconds ?first = ?P"
      using B by simp
    have ps: "timelinePositionSeconds ?second = ?P + getClipDuration ?first"
      using B by (simp add: getClipDuration_def)
    have D: "contiguousFrom ?P (?first # ?second # drop (Suc i) ?cs)"
      by (subst contiguousFrom.simps, intro conjI, rule pf,
          subst contiguousFrom.simps, intro conjI, rule ps, rule C2)
    have "contiguousFrom (0 + ?P) ([?first, ?second] @ drop (Suc i) ?cs)"
      unfolding add_0 append_Cons append_Nil by (rule D)
    with A have "contiguousFrom 0 (take i ?cs @ [?first, ?second] @ drop (Suc i) ?cs)"
      by (subst contiguousFrom_append) (intro conjI)
    then have "recalculatePositions (take i ?cs @ [?first, ?second] @ drop (Suc i) ?cs)
        = take i ?cs @ [?first, ?second] @ drop (Suc i) ?cs"
      unfolding recalculatePositions_def by (rule recalculateFrom_contiguous)
    then show "splitClip (clip_id ?c) t newId st
        = st\<lparr>clips := take i ?cs @ [?first, ?second] @ drop (Suc i) ?cs\<rparr>"
      by (simp add: splitClip_def f s r)
  }
qed

theorem splitClip_boundary_and_inside_witness:
  "distinct (map clip_id (clips exampleTimeline)) \<and> contiguousFrom 0 (clips exampleTimeline)
   \<and> 0 < length (clips exampleTimeline)
   \<and> splitClip ''a'' 10 ''a2'' exampleTimeline = exampleTimeline
   \<and> clips (splitClip ''a'' 4 ''a2'' exampleTimeline)
       = [exampleClipA\<lparr>sourceOutPointSeconds := 4\<rparr>,
          exampleClipA\<lparr>clip_id := ''a2'', sourceInPointSeconds := 4,
            timelinePositionSeconds := 4\<rparr>,
          exampleClipB]"
  using splitClip_boundary_and_inside [of exampleTimeline 0 10 "''a2''"]
    splitClip_boundary_and_inside [of exampleTimeline 0 4 "''a2''"]
  by (simp add: contiguous_contiguousFrom exampleTimeline_def initialTimeline_def exampleClipA_def
        exampleClipB_def getClipDuration_def)





section \<open>Trimming keeps the minimum clip length\<close>


lemma trimStartOfClip_fields:
  "clip_id (trimStartOfClip cid x c) = clip_id c"
  "sourceId (trimStartOfClip cid x c) = sourceId c"
  "sourceOutPointSeconds (trimStartOfClip cid x c) = sourceOutPointSeconds c"
  "timelinePositionSeconds (trimStartOfClip cid x c) = timelinePositionSeconds c"
  "endSeconds (trimmed (trimStartOfClip cid x c)) = endSeconds (trimmed c)"
  by (simp_all add: trimStartOfClip_def Let_def)

lemma trimEndOfClip_fields:
  "clip_id (trimEndOfClip g cid x c) = clip_id c"
  "sourceId (trimEndOfClip g cid x c) = sourceId c"
  "sourceInPointSeconds (trimEndOfClip g cid x c) = sourceInPointSeconds c"
  "timelinePositionSeconds (trimEndOfClip g cid x c) = timelinePositionSeconds c"
  "startSeconds (trimmed (trimEndOfClip g cid x c)) = startSeconds (trimmed c)"
  by (simp_all add: trimEndOfClip_def Let_def split: option.splits)

lemma trimStartOfClip_in:
  "sourceInPointSeconds (trimStartOfClip cid x c) =
     (if clip_id c \<noteq> cid then sourceInPointSeconds c
      else max (sourceInPointSeconds c - startSeconds (trimmed c))
             (max 0 (min x (sourceOutPointSeconds c - 1 / 10))))"
  by (simp add: trimStartOfClip_def Let_def clampTrimStart_def)

lemma trimStartOfClip_trimmed:
  "0 \<le> startSeconds (trimmed c) \<Longrightarrow> 0 \<le> startSeconds (trimmed (trimStartOfClip cid x c))"
  by (auto simp: trimStartOfClip_def Let_def max_def)

lemma trimEndOfClip_out:
  "sourceOutPointSeconds (trimEndOfClip g cid x c) =
     (if clip_id c \<noteq> cid then sourceOutPointSeconds c
      else case g (sourceId c) of
        None \<Rightarrow> sourceOutPointSeconds c
      | Some source \<Rightarrow>
          min (sourceOutPointSeconds c + endSeconds (trimmed c))
            (min (durationInSeconds source) (max x (sourceInPointSeconds c + 1 / 10))))"
  by (simp add: trimEndOfClip_def Let_def clampTrimEnd_def split: option.splits)

lemma trimEndOfClip_trimmed:
  "0 \<le> endSeconds (trimmed c) \<Longrightarrow> 0 \<le> endSeconds (trimmed (trimEndOfClip g cid x c))"
  by (auto simp: trimEndOfClip_def Let_def min_def split: option.splits)

lemma wellFormedClip_trimStartOfClip:
  "wellFormedClip g c \<Longrightarrow> wellFormedClip g (trimStartOfClip cid x c)"
  unfolding wellFormedClip_def
  by (auto simp: trimStartOfClip_fields trimStartOfClip_in trimStartOfClip_trimmed
        split: option.splits)

lemma wellFormedClip_trimEndOfClip:
  "wellFormedClip g c \<Longrightarrow> wellFormedClip g (trimEndOfClip g cid x c)"
  unfolding wellFormedClip_def
  by (auto simp: trimEndOfClip_fields trimEndOfClip_out trimEndOfClip_trimmed
        split: option.splits)

lemma wellFormedClip_position:
  "wellFormedClip g (c\<lparr>timelinePositionSeconds := p\<rparr>) = wellFormedClip g c"
  by (simp add: wellFormedClip_def split: option.splits)





section \<open>Playhead position and timeline time\<close>






section \<open>Re-anchoring the playhead after a trim\<close>

lemma find_map_preserved:
  "(\<And>x. P (f x) = P x) \<Longrightarrow> find P (map f xs) = map_option f (find P xs)"
  by (induction xs) simp_all

lemma find_recalculateFrom_None:
  "find (\<lambda>c. clip_id c = cid) cs = None \<Longrightarrow>
     find (\<lambda>c. clip_id c = cid) (recalculateFrom p cs) = None"
  by (induction cs arbitrary: p) (simp_all split: if_splits)

lemma find_recalculateFrom_Some:
  "find (\<lambda>c. clip_id c = cid) cs = Some c \<Longrightarrow> \<forall>x\<in>set cs. 0 \<le> getClipDuration x \<Longrightarrow>
     \<exists>q\<ge>p. find (\<lambda>c. clip_id c = cid) (recalculateFrom p cs)
              = Some (c\<lparr>timelinePositionSeconds := q\<rparr>)"
proof (induction cs arbitrary: p)
  case Nil
  then show ?case by simp
next
  case (Cons x xs)
  show ?case
  proof (cases "clip_id x = cid")
    case True
    with Cons.prems show ?thesis by auto
  next
    case False
    with Cons.prems have f: "find (\<lambda>c. clip_id c = cid) xs = Some c"
      and nn: "\<forall>x\<in>set xs. 0 \<le> getClipDuration x" and x: "0 \<le> getClipDuration x"
      by simp_all
    from Cons.IH [OF f nn, of "p + getClipDuration x"]
    obtain q where "q \<ge> p + getClipDuration x"
      and "find (\<lambda>c. clip_id c = cid) (recalculateFrom (p + getClipDuration x) xs)
             = Some (c\<lparr>timelinePositionSeconds := q\<rparr>)"
      by blast
    with x False show ?thesis by (intro exI [of _ q]) simp
  qed
qed

lemma adjustPlayheadForTrim_None:
  "find (\<lambda>c. clip_id c = cid) oldClips = None \<Longrightarrow> adjustPlayheadForTrim cid oldClips newClips pb = pb"
  by (simp add: adjustPlayheadForTrim_def)

lemma adjustPlayheadForTrim_Some:
  assumes old: "find (\<lambda>c. clip_id c = cid) oldClips = Some c"
    and new: "find (\<lambda>c. clip_id c = cid) newClips = Some c'"
    and p: "0 \<le> timelinePositionSeconds c'" and d: "0 \<le> getClipDuration c'"
  shows "adjustPlayheadForTrim cid oldClips newClips pb = pb\<lparr>currentTime :=
     (if currentTime pb < timelinePositionSeconds c
         \<or> currentTime pb > timelinePositionSeconds c + getClipDuration c
      then currentTime pb
      else let s = sourceInPointSeconds c + (currentTime pb - timelinePositionSeconds c)
        in if sourceInPointSeconds c' \<le> s \<and> s \<le> sourceOutPointSeconds c'
           then (if \<bar>timelinePositionSeconds c' + (s - sourceInPointSeconds c') - currentTime pb\<bar>
                     > 1 / 1000
                 then timelinePositionSeconds c' + (s - sourceInPointSeconds c')
                 else currentTime pb)
           else if s < sourceInPointSeconds c' then timelinePositionSeconds c'
           else timelinePositionSeconds c' + getClipDuration c')\<rparr>"
proof (cases "currentTime pb < timelinePositionSeconds c
         \<or> currentTime pb > timelinePositionSeconds c + getClipDuration c")
  case True
  then show ?thesis
    by (simp add: adjustPlayheadForTrim_def old new getSourceTimeForPlayhead_def)
next
  case False
  let ?s = "sourceInPointSeconds c + (currentTime pb - timelinePositionSeconds c)"
  from False have g: "getSourceTimeForPlayhead c (currentTime pb) = Some ?s"
    by (simp add: getSourceTimeForPlayhead_def Let_def)
  have a: "sourceInPointSeconds c' \<le> ?s \<Longrightarrow>
      max 0 (timelinePositionSeconds c' + (?s - sourceInPointSeconds c'))
        = timelinePositionSeconds c' + (?s - sourceInPointSeconds c')"
    using p by simp
  have b: "max 0 (timelinePositionSeconds c') = timelinePositionSeconds c'"
    using p by simp
  have e: "max 0 (timelinePositionSeconds c' + getClipDuration c')
      = timelinePositionSeconds c' + getClipDuration c'"
    using p d by simp
  show ?thesis
    using False a
    by (simp add: adjustPlayheadForTrim_def old new g setCurrentTime_def b e Let_def)
qed

lemma wellFormedClip_duration: "wellFormedClip g c \<Longrightarrow> 0 < getClipDuration c"
  by (simp add: wellFormedClip_def getClipDuration_def)

lemma getClipDuration_position:
  "getClipDuration (c\<lparr>timelinePositionSeconds := q\<rparr>) = getClipDuration c"
  by (simp add: getClipDuration_def)

lemma playhead_after_mapped_trim:
  assumes wf: "\<forall>c\<in>set cs. wellFormedClip g c"
    and f: "\<And>c. wellFormedClip g c \<Longrightarrow> wellFormedClip g (f c)"
    and fid: "\<And>c. clip_id (f c) = clip_id c"
  shows "case find (\<lambda>c. clip_id c = cid) cs of
      None \<Rightarrow> adjustPlayheadForTrim cid cs (recalculatePositions (map f cs)) pb = pb
    | Some c \<Rightarrow>
        (\<exists>c'. find (\<lambda>c. clip_id c = cid) (recalculatePositions (map f cs)) = Some c'
           \<and> adjustPlayheadForTrim cid cs (recalculatePositions (map f cs)) pb = pb\<lparr>currentTime :=
     (if currentTime pb < timelinePositionSeconds c
         \<or> currentTime pb > timelinePositionSeconds c + getClipDuration c
      then currentTime pb
      else let s = sourceInPointSeconds c + (currentTime pb - timelinePositionSeconds c)
        in if sourceInPointSeconds c' \<le> s \<and> s \<le> sourceOutPointSeconds c'
           then (if \<bar>timelinePositionSeconds c' + (s - sourceInPointSeconds c') - currentTime pb\<bar>
                     > 1 / 1000
                 then timelinePositionSeconds c' + (s - sourceInPointSeconds c')
                 else currentTime pb)
           else if s < sourceInPointSeconds c' then timelinePositionSeconds c'
           else timelinePositionSeconds c' + getClipDuration c')\<rparr>)"
proof (cases "find (\<lambda>c. clip_id c = cid) cs")
  case None
  then show ?thesis by (simp add: adjustPlayheadForTrim_None)
next
  case (Some c)
  then have cin: "c \<in> set cs" by (auto simp: find_Some_iff)
  have m: "find (\<lambda>c. clip_id c = cid) (map f cs) = Some (f c)"
    using Some by (simp add: find_map_preserved fid)
  have nn: "\<forall>x\<in>set (map f cs). 0 \<le> getClipDuration x"
    using wf f by (auto dest!: wellFormedClip_duration less_imp_le)
  from find_recalculateFrom_Some [OF m nn, of 0]
  obtain q where q: "0 \<le> q"
    and new: "find (\<lambda>c. clip_id c = cid) (recalculatePositions (map f cs))
        = Some ((f c)\<lparr>timelinePositionSeconds := q\<rparr>)"
    unfolding recalculatePositions_def by blast
  from wf cin f have "0 < getClipDuration (f c)"
    by (auto dest!: wellFormedClip_duration)
  then have d: "0 \<le> getClipDuration ((f c)\<lparr>timelinePositionSeconds := q\<rparr>)"
    by (simp add: getClipDuration_position)
  have p: "0 \<le> timelinePositionSeconds ((f c)\<lparr>timelinePositionSeconds := q\<rparr>)"
    using q by simp
  from adjustPlayheadForTrim_Some [OF Some new p d, of pb] new
  show ?thesis unfolding Some option.case by blast
qed

text \<open>
  Claim C5, as the code has it. In a store of well-formed clips, after \<open>trimClipStart\<close>
  or \<open>trimClipEnd\<close> on the clip \<open>c\<close> with the given identifier, whose new state is
  \<open>c'\<close>: if the playhead lay outside the old span of \<open>c\<close> it is unchanged. Otherwise,
  with \<open>s\<close> the source time it was viewing: when \<open>s\<close> lies within the new in- and
  out-point, the playhead moves to the new timeline position plus \<open>s\<close> minus the new
  in-point if that differs from the current playhead by more than 0.001 seconds, and
  stays where it is if it does not; when \<open>s\<close> fell below the new in-point the playhead
  is set to the new timeline start of the clip, and when it fell above the new
  out-point to its new timeline end. Nothing else of the playback state changes, and
  with no clip of that identifier the playback state is unchanged.
\<close>

theorem playhead_after_trim:
  assumes wf: "\<forall>c\<in>set (clips st). wellFormedClip getSource c"
    and op: "sp' = trimClipStart cid x (st, pb) \<or> sp' = trimClipEnd getSource cid x (st, pb)"
  shows "case find (\<lambda>c. clip_id c = cid) (clips st) of
      None \<Rightarrow> snd sp' = pb
    | Some c \<Rightarrow>
        (\<exists>c'. find (\<lambda>c. clip_id c = cid) (clips (fst sp')) = Some c'
           \<and> snd sp' = pb\<lparr>currentTime :=
     (if currentTime pb < timelinePositionSeconds c
         \<or> currentTime pb > timelinePositionSeconds c + getClipDuration c
      then currentTime pb
      else let s = sourceInPointSeconds c + (currentTime pb - timelinePositionSeconds c)
        in if sourceInPointSeconds c' \<le> s \<and> s \<le> sourceOutPointSeconds c'
           then (if \<bar>timelinePositionSeconds c' + (s - sourceInPointSeconds c') - currentTime pb\<bar>
                     > 1 / 1000
                 then timelinePositionSeconds c' + (s - sourceInPointSeconds c')
                 else currentTime pb)
           else if s < sourceInPointSeconds c' then timelinePositionSeconds c'
           else timelinePositionSeconds c' + getClipDuration c')\<rparr>)"
  using op
proof
  assume s: "sp' = trimClipStart cid x (st, pb)"
  have a: "clips (fst (trimClipStart cid x (st, pb)))
      = recalculatePositions (map (trimStartOfClip cid x) (clips st))"
    by (simp add: trimClipStart_def Let_def)
  have b: "snd (trimClipStart cid x (st, pb))
      = adjustPlayheadForTrim cid (clips st)
          (recalculatePositions (map (trimStartOfClip cid x) (clips st))) pb"
    by (simp add: trimClipStart_def Let_def)
  show ?thesis
    unfolding s a b
    by (rule playhead_after_mapped_trim [of "clips st" getSource "trimStartOfClip cid x" cid pb,
      OF wf wellFormedClip_trimStartOfClip trimStartOfClip_fields(1)])
next
  assume s: "sp' = trimClipEnd getSource cid x (st, pb)"
  have a: "clips (fst (trimClipEnd getSource cid x (st, pb)))
      = recalculatePositions (map (trimEndOfClip getSource cid x) (clips st))"
    by (simp add: trimClipEnd_def Let_def)
  have b: "snd (trimClipEnd getSource cid x (st, pb))
      = adjustPlayheadForTrim cid (clips st)
          (recalculatePositions (map (trimEndOfClip getSource cid x) (clips st))) pb"
    by (simp add: trimClipEnd_def Let_def)
  show ?thesis
    unfolding s a b
    by (rule playhead_after_mapped_trim
      [of "clips st" getSource "trimEndOfClip getSource cid x" cid pb,
      OF wf wellFormedClip_trimEndOfClip trimEndOfClip_fields(1)])
qed

theorem playhead_after_trim_witness:
  "wellFormedClip exampleSources exampleClipA \<and> wellFormedClip exampleSources exampleClipB
   \<and> clips exampleTimeline = [exampleClipA, exampleClipB]
   \<and> currentTime (snd (trimClipStart ''a'' 2
         (exampleTimeline, initialPlayback\<lparr>currentTime := 5\<rparr>))) = 3
   \<and> currentTime (snd (trimClipEnd exampleSources ''a'' 4
         (exampleTimeline, initialPlayback\<lparr>currentTime := 5\<rparr>))) = 4"
  using playhead_after_trim [where st = exampleTimeline and getSource = exampleSources
      and sp' = "trimClipStart ''a'' 2 (exampleTimeline, initialPlayback\<lparr>currentTime := 5\<rparr>)"
      and cid = "''a''" and x = 2 and pb = "initialPlayback\<lparr>currentTime := 5\<rparr>"]
    playhead_after_trim [where st = exampleTimeline and getSource = exampleSources
      and sp' = "trimClipEnd exampleSources ''a'' 4
        (exampleTimeline, initialPlayback\<lparr>currentTime := 5\<rparr>)"
      and cid = "''a''" and x = 4 and pb = "initialPlayback\<lparr>currentTime := 5\<rparr>"]
  by (simp add: store_defs exampleTimeline_def exampleClipA_def exampleClipB_def Let_def
        wellFormedClip_def)

text \<open>
  Claim C5 as stated fails: the playhead at 5 views source time 5 of the first clip. Trimming the start of that
  clip by half a millisecond keeps source time 5 within the new bounds, and the
  playhead stays at 5, which is not the new timeline position plus the source time
  minus the new in-point.
\<close>

theorem playhead_small_trim_counterexample:
  "getSourceTimeForPlayhead exampleClipA 5 = Some 5
   \<and> clips (fst (trimClipStart ''a'' (1 / 2000)
           (exampleTimeline, initialPlayback\<lparr>currentTime := 5\<rparr>))) ! 0
       = exampleClipA\<lparr>sourceInPointSeconds := 1 / 2000,
           trimmed := \<lparr>startSeconds = 1 / 2000, endSeconds = 0\<rparr>\<rparr>
   \<and> (1 / 2000 :: real) \<le> 5 \<and> (5 :: real) \<le> 10
   \<and> currentTime (snd (trimClipStart ''a'' (1 / 2000)
           (exampleTimeline, initialPlayback\<lparr>currentTime := 5\<rparr>))) = 5
   \<and> (5 :: real) \<noteq> 0 + (5 - 1 / 2000)"
  by (simp add: store_defs exampleTimeline_def exampleClipA_def exampleClipB_def Let_def)

section \<open>The invariants hold in every store the mutations can build\<close>

text \<open>
  The hypotheses used above (contiguity, distinct identifiers, well-formed clips) are
  invariants of the store: they hold after every sequence of mutations applied to the
  empty store, provided the registry holds sources of positive duration and
  \<open>generateId()\<close> returns identifiers new to the clip list.
\<close>

lemma wellFormed_recalculateFrom:
  "\<forall>c\<in>set cs. wellFormedClip g c \<Longrightarrow> \<forall>c\<in>set (recalculateFrom p cs). wellFormedClip g c"
  by (induction cs arbitrary: p) (simp_all add: wellFormedClip_position)

lemma clip_ids_recalculateFrom: "map clip_id (recalculateFrom p cs) = map clip_id cs"
  by (induction cs arbitrary: p) simp_all

lemma findIndex_Some:
  "findIndex P xs = Some i \<Longrightarrow> i < length xs \<and> P (xs ! i)"
proof (induction xs arbitrary: i)
  case Nil
  then show ?case by simp
next
  case (Cons x xs)
  then show ?case by (cases "P x") auto
qed

lemma set_spliceOut: "set (spliceOut i xs) \<subseteq> set xs"
  unfolding spliceOut_def by (auto dest: in_set_takeD in_set_dropD)

lemma set_spliceIn: "set (spliceIn i x xs) \<subseteq> insert x (set xs)"
  unfolding spliceIn_def by (auto dest: in_set_takeD in_set_dropD)

lemma distinct_spliceOut:
  assumes "distinct (map f xs)" and "i < length xs"
  shows "distinct (map f (spliceOut i xs))" and "f (xs ! i) \<notin> f ` set (spliceOut i xs)"
proof -
  from assms(2) have "xs = take i xs @ xs ! i # drop (Suc i) xs"
    by (rule id_take_nth_drop)
  then have "distinct (map f (take i xs @ xs ! i # drop (Suc i) xs))"
    using assms(1) by simp
  then show "distinct (map f (spliceOut i xs))" and "f (xs ! i) \<notin> f ` set (spliceOut i xs)"
    unfolding spliceOut_def by auto
qed

lemma distinct_spliceIn:
  assumes "distinct (map f ys)" and "f x \<notin> f ` set ys"
  shows "distinct (map f (spliceIn i x ys))"
proof -
  have "distinct (map f (take i ys) @ map f (drop i ys))"
    using assms(1) by (metis append_take_drop_id map_append)
  then have d: "distinct (map f (take i ys))" "distinct (map f (drop i ys))"
      "f ` set (take i ys) \<inter> f ` set (drop i ys) = {}"
    by (simp_all add: distinct_append)
  have "f x \<notin> f ` set (take i ys)" "f x \<notin> f ` set (drop i ys)"
    using assms(2) by (auto dest: in_set_takeD in_set_dropD)
  with d show ?thesis
    unfolding spliceIn_def by auto
qed

lemma wellFormedClip_addClip:
  "validSources g \<Longrightarrow> g sid = Some source \<Longrightarrow>
   wellFormedClip g \<lparr>clip_id = newId, sourceId = sid, sourceInPointSeconds = 0,
     sourceOutPointSeconds = durationInSeconds source, timelinePositionSeconds = 0,
     trimmed = \<lparr>startSeconds = 0, endSeconds = 0\<rparr>\<rparr>"
  by (simp add: wellFormedClip_def validSources_def)

lemma wellFormedClip_createSplitClips:
  "wellFormedClip g c \<Longrightarrow> createSplitClips c t newId = Some (a, b) \<Longrightarrow>
   wellFormedClip g a \<and> wellFormedClip g b"
  by (auto simp: createSplitClips_def Let_def wellFormedClip_def getClipDuration_def
        split: if_splits option.splits)

lemma wellFormed_applyMutation:
  assumes v: "validSources g" and wf: "\<forall>c\<in>set (clips (fst sp)). wellFormedClip g c"
  shows "\<forall>c\<in>set (clips (fst (applyMutation g sp m))). wellFormedClip g c"
proof (cases sp)
  case (Pair st pb)
  with wf have w: "\<forall>c\<in>set (clips st). wellFormedClip g c" by simp
  show ?thesis
  proof (cases m)
    case (AddClip sid newId)
    show ?thesis
    proof (cases "g sid")
      case None
      with Pair AddClip w show ?thesis by (simp add: addClip_def)
    next
      case (Some source)
      from w wellFormedClip_addClip [OF v Some, of newId]
      have "\<forall>c\<in>set (clips st @ [\<lparr>clip_id = newId, sourceId = sid, sourceInPointSeconds = 0,
          sourceOutPointSeconds = durationInSeconds source, timelinePositionSeconds = 0,
          trimmed = \<lparr>startSeconds = 0, endSeconds = 0\<rparr>\<rparr>]). wellFormedClip g c"
        by simp
      from wellFormed_recalculateFrom [OF this, of 0] Pair AddClip Some show ?thesis
        by (simp add: addClip_def recalculatePositions_def)
    qed
  next
    case (RemoveClip cid)
    from w have "\<forall>c\<in>set (filter (\<lambda>c. clip_id c \<noteq> cid) (clips st)). wellFormedClip g c"
      by simp
    from wellFormed_recalculateFrom [OF this, of 0] Pair RemoveClip show ?thesis
      by (simp add: removeClip_def recalculatePositions_def)
  next
    case (ReorderClips a b)
    show ?thesis
    proof (cases "a = b \<or> findIndex (\<lambda>c. clip_id c = a) (clips st) = None
        \<or> findIndex (\<lambda>c. clip_id c = b) (clips st) = None")
      case True
      with Pair ReorderClips w show ?thesis
        by (auto simp: reorderClips_def split: option.splits)
    next
      case False
      then obtain i j where i: "findIndex (\<lambda>c. clip_id c = a) (clips st) = Some i"
        and j: "findIndex (\<lambda>c. clip_id c = b) (clips st) = Some j" and ab: "a \<noteq> b"
        by auto
      from findIndex_Some [OF i] have "clips st ! i \<in> set (clips st)" by simp
      with w set_spliceIn [of j "clips st ! i" "spliceOut i (clips st)"]
        set_spliceOut [of i "clips st"]
      have "\<forall>c\<in>set (spliceIn j (clips st ! i) (spliceOut i (clips st))). wellFormedClip g c"
        by blast
      from wellFormed_recalculateFrom [OF this, of 0] Pair ReorderClips i j ab show ?thesis
        by (simp add: reorderClips_def recalculatePositions_def Let_def)
    qed
  next
    case (SplitClip cid t newId)
    show ?thesis
    proof (cases "find (\<lambda>c. clip_id c = cid) (clips st)")
      case None
      with Pair SplitClip w show ?thesis by (simp add: splitClip_def)
    next
      case (Some clip)
      then have cin: "clip \<in> set (clips st)" by (auto simp: find_Some_iff)
      show ?thesis
      proof (cases "createSplitClips clip t newId")
        case None
        with Pair SplitClip Some w show ?thesis by (simp add: splitClip_def)
      next
        case created: (Some p)
        obtain x y where p: "p = (x, y)" by (cases p)
        from wellFormedClip_createSplitClips [of g clip t newId x y] w cin created p
        have "wellFormedClip g x \<and> wellFormedClip g y" by simp
        with w have "\<forall>c\<in>set (concat (map (\<lambda>c. if clip_id c = cid then [x, y] else [c])
            (clips st))). wellFormedClip g c"
          by auto
        from wellFormed_recalculateFrom [OF this, of 0] Pair SplitClip Some created p
        show ?thesis
          by (simp add: splitClip_def recalculatePositions_def)
      qed
    qed
  next
    case (TrimClipStart cid x)
    from w have "\<forall>c\<in>set (map (trimStartOfClip cid x) (clips st)). wellFormedClip g c"
      by (simp add: wellFormedClip_trimStartOfClip)
    from wellFormed_recalculateFrom [OF this, of 0] Pair TrimClipStart show ?thesis
      by (simp add: trimClipStart_def recalculatePositions_def Let_def)
  next
    case (TrimClipEnd cid x)
    from w have "\<forall>c\<in>set (map (trimEndOfClip g cid x) (clips st)). wellFormedClip g c"
      by (simp add: wellFormedClip_trimEndOfClip)
    from wellFormed_recalculateFrom [OF this, of 0] Pair TrimClipEnd show ?thesis
      by (simp add: trimClipEnd_def recalculatePositions_def Let_def)
  next
    case ClearClips
    with Pair show ?thesis by (simp add: clearClips_def)
  qed
qed

lemma wellFormed_foldl:
  "validSources g \<Longrightarrow> \<forall>c\<in>set (clips (fst sp)). wellFormedClip g c \<Longrightarrow>
     \<forall>c\<in>set (clips (fst (foldl (applyMutation g) sp ms))). wellFormedClip g c"
proof (induction ms arbitrary: sp)
  case Nil
  then show ?case by simp
next
  case (Cons m ms)
  from wellFormed_applyMutation [OF Cons.prems, of m]
  have "\<forall>c\<in>set (clips (fst (applyMutation g sp m))). wellFormedClip g c" .
  from Cons.IH [OF Cons.prems(1) this] show ?case by simp
qed

lemma runMutations_wellFormed:
  "validSources g \<Longrightarrow>
     \<forall>c\<in>set (clips (fst (runMutations g (initialTimeline, pb) ms))). wellFormedClip g c"
  unfolding runMutations_def
  by (rule wellFormed_foldl) (simp_all add: initialTimeline_def)

lemma createSplitClips_ids:
  "createSplitClips c t newId = Some (a, b) \<Longrightarrow> clip_id a = clip_id c \<and> clip_id b = newId"
  by (auto simp: createSplitClips_def Let_def split: if_splits)

lemma distinct_replace_by_two:
  assumes d: "distinct (map f xs)" and i: "i < length xs"
    and a: "f a = f (xs ! i)" and b: "f b \<notin> f ` set xs"
  shows "distinct (map f (take i xs @ [a, b] @ drop (Suc i) xs))"
proof -
  from i have "xs = take i xs @ xs ! i # drop (Suc i) xs"
    by (rule id_take_nth_drop)
  then have "distinct (map f (take i xs @ xs ! i # drop (Suc i) xs))"
    using d by simp
  moreover have "f b \<notin> f ` set (take i xs)" "f b \<notin> f ` set (drop (Suc i) xs)"
      "f b \<noteq> f (xs ! i)"
    using b i by (auto dest: in_set_takeD in_set_dropD)
  ultimately show ?thesis
    using a by auto
qed

lemma distinct_applyMutation:
  assumes d: "distinct (map clip_id (clips (fst sp)))"
    and fresh: "mutationIdFresh m (clips (fst sp))"
  shows "distinct (map clip_id (clips (fst (applyMutation g sp m))))"
proof (cases sp)
  case (Pair st pb)
  with d have ds: "distinct (map clip_id (clips st))" by simp
  show ?thesis
  proof (cases m)
    case (AddClip sid newId)
    with Pair fresh ds show ?thesis
      by (auto simp: addClip_def recalculatePositions_def clip_ids_recalculateFrom
            split: option.splits)
  next
    case (RemoveClip cid)
    with Pair ds show ?thesis
      by (simp add: removeClip_def recalculatePositions_def clip_ids_recalculateFrom
            distinct_map_filter)
  next
    case (ReorderClips a b)
    show ?thesis
    proof (cases "a = b \<or> findIndex (\<lambda>c. clip_id c = a) (clips st) = None
        \<or> findIndex (\<lambda>c. clip_id c = b) (clips st) = None")
      case True
      with Pair ReorderClips ds show ?thesis
        by (auto simp: reorderClips_def split: option.splits)
    next
      case False
      then obtain i j where i: "findIndex (\<lambda>c. clip_id c = a) (clips st) = Some i"
        and j: "findIndex (\<lambda>c. clip_id c = b) (clips st) = Some j" and ab: "a \<noteq> b"
        by auto
      from findIndex_Some [OF i] have il: "i < length (clips st)" by simp
      from distinct_spliceIn [OF distinct_spliceOut [OF ds il], of j]
      have "distinct (map clip_id (spliceIn j (clips st ! i) (spliceOut i (clips st))))" .
      with Pair ReorderClips i j ab show ?thesis
        by (simp add: reorderClips_def recalculatePositions_def clip_ids_recalculateFrom Let_def)
    qed
  next
    case (SplitClip cid t newId)
    show ?thesis
    proof (cases "find (\<lambda>c. clip_id c = cid) (clips st)")
      case None
      with Pair SplitClip ds show ?thesis by (simp add: splitClip_def)
    next
      case (Some clip)
      then obtain k where k: "k < length (clips st)" and ck: "clip = clips st ! k"
        and idk: "clip_id (clips st ! k) = cid"
        by (auto simp: find_Some_iff)
      show ?thesis
      proof (cases "createSplitClips clip t newId")
        case None
        with Pair SplitClip Some ds show ?thesis by (simp add: splitClip_def)
      next
        case created: (Some p)
        obtain x y where p: "p = (x, y)" by (cases p)
        from createSplitClips_ids [of clip t newId x y] created p ck
        have ids: "clip_id x = clip_id (clips st ! k)" "clip_id y = newId" by simp_all
        from fresh Pair SplitClip have "newId \<notin> clip_id ` set (clips st)" by simp
        with ids have y: "clip_id y \<notin> clip_id ` set (clips st)" by simp
        have r: "concat (map (\<lambda>c. if clip_id c = cid then [x, y] else [c]) (clips st))
            = take k (clips st) @ [x, y] @ drop (Suc k) (clips st)"
          using concat_replace_distinct [OF ds k, of "[x, y]"] idk by simp
        from distinct_replace_by_two [OF ds k ids(1) y] Pair SplitClip Some created p
        show ?thesis
          by (simp add: splitClip_def recalculatePositions_def clip_ids_recalculateFrom r)
      qed
    qed
  next
    case (TrimClipStart cid x)
    have e: "map (clip_id \<circ> trimStartOfClip cid x) (clips st) = map clip_id (clips st)"
      by (simp add: trimStartOfClip_fields)
    from Pair TrimClipStart ds show ?thesis
      by (simp add: trimClipStart_def recalculatePositions_def clip_ids_recalculateFrom Let_def e)
  next
    case (TrimClipEnd cid x)
    have e: "map (clip_id \<circ> trimEndOfClip g cid x) (clips st) = map clip_id (clips st)"
      by (simp add: trimEndOfClip_fields)
    from Pair TrimClipEnd ds show ?thesis
      by (simp add: trimClipEnd_def recalculatePositions_def clip_ids_recalculateFrom Let_def e)
  next
    case ClearClips
    with Pair show ?thesis by (simp add: clearClips_def)
  qed
qed

lemma distinct_foldl:
  "distinct (map clip_id (clips (fst sp))) \<Longrightarrow> generatedIdsFresh g sp ms \<Longrightarrow>
     distinct (map clip_id (clips (fst (foldl (applyMutation g) sp ms))))"
proof (induction ms arbitrary: sp)
  case Nil
  then show ?case by simp
next
  case (Cons m ms)
  from Cons.prems have f: "mutationIdFresh m (clips (fst sp))"
    and r: "generatedIdsFresh g (applyMutation g sp m) ms"
    by simp_all
  from distinct_applyMutation [OF Cons.prems(1) f, of g]
  have "distinct (map clip_id (clips (fst (applyMutation g sp m))))" .
  from Cons.IH [OF this r] show ?case by simp
qed

lemma runMutations_distinct_ids:
  "generatedIdsFresh g (initialTimeline, pb) ms \<Longrightarrow>
     distinct (map clip_id (clips (fst (runMutations g (initialTimeline, pb) ms))))"
  unfolding runMutations_def
  by (rule distinct_foldl) (simp_all add: initialTimeline_def)

lemma wellFormedClip_extentsNonNegative: "wellFormedClip g c \<Longrightarrow> extentsNonNegative c"
  by (simp add: wellFormedClip_def extentsNonNegative_def getClipDuration_def)


lemma runMutations_invariants:
  assumes "validSources g" and "generatedIdsFresh g (initialTimeline, pb) ms"
  shows "contiguous (clips (fst (runMutations g (initialTimeline, pb) ms)))"
    and "distinct (map clip_id (clips (fst (runMutations g (initialTimeline, pb) ms))))"
    and "\<forall>c\<in>set (clips (fst (runMutations g (initialTimeline, pb) ms))).
           wellFormedClip g c \<and> extentsNonNegative c"
proof -
  have "contiguous (clips (fst (initialTimeline, pb)))"
    by (simp add: initialTimeline_def contiguous_Nil)
  then show "contiguous (clips (fst (runMutations g (initialTimeline, pb) ms)))"
    unfolding runMutations_def by (rule contiguous_foldl)
  show "distinct (map clip_id (clips (fst (runMutations g (initialTimeline, pb) ms))))"
    using assms(2) by (rule runMutations_distinct_ids)
  show "\<forall>c\<in>set (clips (fst (runMutations g (initialTimeline, pb) ms))).
           wellFormedClip g c \<and> extentsNonNegative c"
    using runMutations_wellFormed [OF assms(1), of pb ms] wellFormedClip_extentsNonNegative
    by blast
qed

end
